theory Spec2Isabelle
  imports Complex_Main
begin

section \<open>The Ramani model of qi\_qmt.cpp\<close>

text \<open>
  \<^verbatim>\<open>struct RamaniModel : QI::Model<double, double, 5, 3, 1, 2>\<close>. The template
  \<^verbatim>\<open>QI::Model\<close> (Model.h) is not among the sources: its arguments 5, 3 and 2 are
  taken to be the constants \<^verbatim>\<open>NV\<close>, \<^verbatim>\<open>NF\<close> and \<^verbatim>\<open>ND\<close> that the struct uses, the
  numbers of varying parameters, of fixed covariates and of derived quantities, as the
  five, three and two names that the struct gives them confirm. Doubles are read as real
  numbers; the Eigen arrays are lists.
\<close>

definition NV :: nat where "NV = 5"
definition NF :: nat where "NF = 3"

text \<open>
  The members of \<^verbatim>\<open>QI::ZSpecSequence\<close> that the model reads: the offsets and the
  angles of the saturation pulses, one entry of each per saturation, the pulse and two
  times. Its declaration (MTSequences.h) is not among the sources, so its
  \<^verbatim>\<open>size()\<close> is a parameter \<open>size_of\<close> of the functions that call it.
\<close>

record RFPulse =
  p1 :: real
  p2 :: real

record ZSpecSequence =
  sat_f0 :: "real list"
  sat_angle :: "real list"
  pulse :: RFPulse
  Trf :: real
  TR :: real

datatype Lineshapes = Gaussian | Lorentzian | SuperLorentzian | Interpolated

text \<open>A lineshape maps the offset frequencies and \<open>T2b\<close> to one value per offset.\<close>

type_synonym lineshape_fn = "real list \<Rightarrow> real \<Rightarrow> real list"

record RamaniModel =
  sequence :: ZSpecSequence
  R1_b :: real
  lineshape :: Lineshapes
  interp :: "lineshape_fn option"
  varying_names :: "string list"
  derived_names :: "string list"
  fixed_names :: "string list"
  fixed_defaults :: "real list"
  bounds_lo :: "real list"
  bounds_hi :: "real list"
  start :: "real list"

text \<open>
  The aggregate initialisation \<^verbatim>\<open>RamaniModel model{{}, mtsat_sequence, R1_b.Get(),
  lineshape, interp}\<close> of \<^verbatim>\<open>qmt_main\<close>: the first four members come from the
  caller, the others from their default member initialisers.
\<close>

definition RamaniModel_init ::
  "ZSpecSequence \<Rightarrow> real \<Rightarrow> Lineshapes \<Rightarrow> lineshape_fn option \<Rightarrow> RamaniModel" where
  "RamaniModel_init seq r1b ls ip =
     \<lparr> sequence = seq, R1_b = r1b, lineshape = ls, interp = ip,
       varying_names = [''M0_f'', ''f_b'', ''T2_b'', ''T2_f'', ''k''],
       derived_names = [''T1_f'', ''k_bf''],
       fixed_names = [''f0'', ''B1'', ''T1_app''],
       fixed_defaults = [0, 1, 1],
       bounds_lo = [1 / 10, 1 / 10 ^ 6, (1 / 10) / 10 ^ 6, 1 / 100, 1],
       bounds_hi = [10, 99 / 100, 100 / 10 ^ 6, 1, 100],
       start = [1, 1 / 10, 10 / 10 ^ 6, 1 / 10, 10] \<rparr>"

text \<open>\<^verbatim>\<open>int input_size(const int /* Unused */) const { return sequence.size(); }\<close>\<close>

definition input_size :: "(ZSpecSequence \<Rightarrow> nat) \<Rightarrow> RamaniModel \<Rightarrow> int \<Rightarrow> int" where
  "input_size size_of m unused = int (size_of (sequence m))"

subsection \<open>The derived quantities\<close>



subsection \<open>A model to evaluate the functions on\<close>

text \<open>
  A sequence of two saturations, and the model that \<^verbatim>\<open>qmt_main\<close> builds from it
  with the default \<open>R1_b\<close> of 2.5 and the Gaussian lineshape.
\<close>

definition example_sequence :: ZSpecSequence where
  "example_sequence =
     \<lparr>sat_f0 = [1000, 2000], sat_angle = [360, 720], pulse = \<lparr>p1 = 1, p2 = 1\<rparr>,
      Trf = 1 / 100, TR = 1 / 20\<rparr>"

definition example_model :: RamaniModel where
  "example_model = RamaniModel_init example_sequence (5 / 2) Gaussian None"

section \<open>Eigen arrays in cereal text archives (EigenCereal.h)\<close>

text \<open>
  A text archive is read and written one item per call \<^verbatim>\<open>ar(...)\<close>: a size tag
  (\<^verbatim>\<open>cereal::make_size_tag\<close>) or a value. An output archive appends the item; an input
  archive hands out its next item, and cereal throws when the item at hand is not of the
  kind asked for or the archive is exhausted (\<open>None\<close> below). The archive keeps values as
  they are. Sizes and loop counters are natural numbers.
\<close>

datatype 'a entry = SizeTag nat | Value 'a

type_synonym 'a archive = "'a entry list"

text \<open>\<^verbatim>\<open>for(auto i = 0; i < v.rows(); ++i) { ar(v[i]); }\<close> of \<^verbatim>\<open>save\<close>.\<close>

function save_loop :: "'a list \<Rightarrow> nat \<Rightarrow> 'a archive \<Rightarrow> 'a archive" where
  "save_loop v i ar = (if i < length v then save_loop v (Suc i) (ar @ [Value (v ! i)]) else ar)"
  by pat_completeness auto
termination
  by (relation "measure (\<lambda>(v, i, ar). length v - i)") auto

declare save_loop.simps [simp del]

definition save :: "'a archive \<Rightarrow> 'a list \<Rightarrow> 'a archive" where
  "save ar v = save_loop v 0 (ar @ [SizeTag (length v)])"

text \<open>
  \<^verbatim>\<open>v.resize(n_rows, 1)\<close>: Eigen reallocates, and the new coefficients are not
  initialised.
\<close>

definition resize :: "nat \<Rightarrow> 'a list \<Rightarrow> 'a list" where
  "resize n v = replicate n undefined"

text \<open>\<^verbatim>\<open>for(auto i = 0; i < n_rows; i++) { ar(v[i]); }\<close> of \<^verbatim>\<open>load\<close>.\<close>

function load_loop :: "nat \<Rightarrow> nat \<Rightarrow> 'a list \<Rightarrow> 'a archive \<Rightarrow> ('a list \<times> 'a archive) option" where
  "load_loop n_rows i v ar =
     (if i < n_rows then
        (case ar of
           Value x # ar' \<Rightarrow> load_loop n_rows (Suc i) (v[i := x]) ar'
         | _ \<Rightarrow> None)
      else Some (v, ar))"
  by pat_completeness auto
termination
  by (relation "measure (\<lambda>(n_rows, i, v, ar). n_rows - i)") auto

declare load_loop.simps [simp del]

text \<open>\<^verbatim>\<open>load\<close> returns the array it filled and what is left of the archive.\<close>

definition load :: "'a archive \<Rightarrow> 'a list \<Rightarrow> ('a list \<times> 'a archive) option" where
  "load ar v =
     (case ar of
        SizeTag n_rows # ar' \<Rightarrow>
          load_loop n_rows 0 (if length v \<noteq> n_rows then resize n_rows v else v) ar'
      | _ \<Rightarrow> None)"

section \<open>The SSFP ellipse (EllipseHelpers.h)\<close>

text \<open>
  \<^verbatim>\<open>EllipseToSignal\<close> at \<^verbatim>\<open>T = double\<close>, read as real numbers. The Eigen
  expressions are coefficient-wise; \<^verbatim>\<open>result << re_m, im_m\<close> fills the result with
  \<open>re_m\<close> followed by \<open>im_m\<close>.
\<close>

definition EllipseToSignal ::
  "real \<Rightarrow> real \<Rightarrow> real \<Rightarrow> real \<Rightarrow> real \<Rightarrow> real list \<Rightarrow> real list" where
  "EllipseToSignal G a b theta0 psi0 phi =
     (let theta = map (\<lambda>p. theta0 - p) phi;
          psi = theta0 / 2 + psi0;
          cos_th = map cos theta;
          sin_th = map sin theta;
          cos_psi = cos psi;
          sin_psi = sin psi;
          re_m = map (\<lambda>(c, s). (cos_psi - a * (c * cos_psi - s * sin_psi)) * G / (1 - b * c))
                   (zip cos_th sin_th);
          im_m = map (\<lambda>(c, s). (sin_psi - a * (c * sin_psi + s * cos_psi)) * G / (1 - b * c))
                   (zip cos_th sin_th)
      in re_m @ im_m)"

text \<open>
  The magnetization the header comment speaks of, as a complex number: the point
  \<^verbatim>\<open>G (1 - a exp(i theta)) / (1 - b cos(theta))\<close> of the ellipse at
  \<^verbatim>\<open>theta = theta0 - phi\<close>, turned by the angle \<^verbatim>\<open>psi = theta0 / 2 + psi0\<close>. It is
  stated here to be compared with the two real arrays of the code.
\<close>

definition ellipse_magnetization ::
  "real \<Rightarrow> real \<Rightarrow> real \<Rightarrow> real \<Rightarrow> real \<Rightarrow> real \<Rightarrow> complex" where
  "ellipse_magnetization G a b theta0 psi0 p =
     (1 - of_real a * cis (theta0 - p)) * cis (theta0 / 2 + psi0) * of_real G /
       of_real (1 - b * cos (theta0 - p))"

section \<open>The polynomial image source of qipolygen.cpp\<close>

text \<open>
  \<^verbatim>\<open>QI::VolumeF\<close> is a three-dimensional ITK image of floats. Floats and doubles
  are both read as real numbers, so the conversion of the double value of the polynomial
  to the float that \<^verbatim>\<open>Set\<close> stores does not show. An index is a triple of integers,
  a physical point a triple of reals.
\<close>

type_synonym index = "int \<times> int \<times> int"
type_synonym point = "real \<times> real \<times> real"

text \<open>An image region: the index of its first voxel and its size along each axis.\<close>

record ImageRegion =
  Index :: index
  Size :: "nat \<times> nat \<times> nat"

text \<open>
  The order in which an ITK region iterator visits a region, from \<^verbatim>\<open>GoToBegin()\<close>
  until \<^verbatim>\<open>IsAtEnd()\<close>: raster order, the first coordinate running fastest.
\<close>

definition region_indices :: "ImageRegion \<Rightarrow> index list" where
  "region_indices r =
     (case (Index r, Size r) of
        ((x0, y0, z0), (nx, ny, nz)) \<Rightarrow>
          [(x0 + int i, y0 + int j, z0 + int k). k \<leftarrow> [0..<nz], j \<leftarrow> [0..<ny], i \<leftarrow> [0..<nx]])"

text \<open>
  What the program uses of an image: its largest possible region, the map from an index
  to a physical point that its origin, spacing and direction define
  (\<^verbatim>\<open>TransformIndexToPhysicalPoint\<close>), and its pixel buffer. A voxel that was never
  written, or that the buffer does not hold, has no pixel.
\<close>

record Image =
  LargestPossibleRegion :: ImageRegion
  IndexToPhysicalPoint :: "index \<Rightarrow> point"
  pixels :: "index \<rightharpoonup> real"


text \<open>
  The filter object: the reference image, the polynomial, the optional mask (input 1, a
  null pointer when no mask was set) and the output image.
\<close>

record 'p PolynomialImage =
  m_reference :: Image
  m_poly :: "'p"
  Mask :: "Image option"
  Output :: Image


text \<open>
  The state of a run of \<^verbatim>\<open>GenerateData\<close>: the pixel buffer of the output, and a log
  of the calls made, in order: \<open>sets\<close> holds the index of every call of
  \<^verbatim>\<open>imageIt.Set\<close>, \<open>evals\<close> the index of every voxel for which
  \<^verbatim>\<open>m_poly.value\<close> was called.
\<close>

record run =
  out_pixels :: "index \<rightharpoonup> real"
  sets :: "index list"
  evals :: "index list"

text \<open>\<^verbatim>\<open>imageIt.Set(val)\<close> with the iterator at index \<open>i\<close>.\<close>

definition Set_pixel :: "index \<Rightarrow> real \<Rightarrow> run \<Rightarrow> run" where
  "Set_pixel i val st = st\<lparr>out_pixels := (out_pixels st)(i \<mapsto> val), sets := sets st @ [i]\<rparr>"

text \<open>
  \<^verbatim>\<open>m_reference->TransformIndexToPhysicalPoint(imageIt.GetIndex(), p)\<close> followed by
  \<^verbatim>\<open>m_poly.value(ep)\<close>.
\<close>

definition poly_value ::
  "('p \<Rightarrow> point \<Rightarrow> real) \<Rightarrow> 'p PolynomialImage \<Rightarrow> index \<Rightarrow> run \<Rightarrow> real \<times> run" where
  "poly_value pv F i st =
     (pv (m_poly F) (IndexToPhysicalPoint (m_reference F) i), st\<lparr>evals := evals st @ [i]\<rparr>)"

text \<open>The first branch of the loop body: evaluate the polynomial and store the value.\<close>

definition visit_inside ::
  "('p \<Rightarrow> point \<Rightarrow> real) \<Rightarrow> 'p PolynomialImage \<Rightarrow> index \<Rightarrow> run \<Rightarrow> run" where
  "visit_inside pv F i st = (case poly_value pv F i st of (val, st') \<Rightarrow> Set_pixel i val st')"

text \<open>
  The \<^verbatim>\<open>while(!imageIt.IsAtEnd())\<close> loop. An iterator is the list of the indices it
  has still to visit, the first being its position. \<open>maskIter\<close> is \<open>None\<close> when there
  is no mask; otherwise it holds the mask image and its own positions, and
  \<^verbatim>\<open>maskIter.Get()\<close> reads the mask at its position. Reading a mask iterator that is
  past its end, or at a voxel the mask does not hold, does not give a value: the run
  fails (\<open>None\<close>).
\<close>

fun GenerateData_loop ::
  "('p \<Rightarrow> point \<Rightarrow> real) \<Rightarrow> 'p PolynomialImage \<Rightarrow> index list \<Rightarrow>
   (Image \<times> index list) option \<Rightarrow> run \<Rightarrow> run option" where
  "GenerateData_loop pv F [] maskIter st = Some st"
| "GenerateData_loop pv F (i # imageIt) None st =
     GenerateData_loop pv F imageIt None (visit_inside pv F i st)"
| "GenerateData_loop pv F (i # imageIt) (Some (mask_image, [])) st = None"
| "GenerateData_loop pv F (i # imageIt) (Some (mask_image, j # maskIter)) st =
     (case pixels mask_image j of
        None \<Rightarrow> None
      | Some m \<Rightarrow>
          GenerateData_loop pv F imageIt (Some (mask_image, maskIter))
            (if m \<noteq> 0 then visit_inside pv F i st else Set_pixel i 0 st))"

text \<open>
  \<^verbatim>\<open>GenerateData\<close>: both iterators walk the largest possible region of the output,
  from its beginning.
\<close>

definition GenerateData ::
  "('p \<Rightarrow> point \<Rightarrow> real) \<Rightarrow> 'p PolynomialImage \<Rightarrow> run option" where
  "GenerateData pv F =
     (let output = Output F;
          imageIt = region_indices (LargestPossibleRegion output);
          maskIter = (case Mask F of
                        None \<Rightarrow> None
                      | Some mask_image \<Rightarrow> Some (mask_image, region_indices (LargestPossibleRegion output)))
      in GenerateData_loop pv F imageIt maskIter
           \<lparr>out_pixels = pixels output, sets = [], evals = []\<rparr>)"


subsection \<open>Vocabulary for the properties\<close>

text \<open>A voxel is masked out when there is a mask and its value there is zero.\<close>

definition masked_out :: "'p PolynomialImage \<Rightarrow> index \<Rightarrow> bool" where
  "masked_out F i = (case Mask F of None \<Rightarrow> False | Some mask_image \<Rightarrow> pixels mask_image i = Some 0)"


text \<open>The value a voxel is meant to hold after a run.\<close>

definition voxel_value ::
  "('p \<Rightarrow> point \<Rightarrow> real) \<Rightarrow> 'p PolynomialImage \<Rightarrow> index \<Rightarrow> real" where
  "voxel_value pv F i =
     (if masked_out F i then 0 else pv (m_poly F) (IndexToPhysicalPoint (m_reference F) i))"

text \<open>The mask, when there is one, holds a pixel at every index of the output region.\<close>

definition mask_covers :: "'p PolynomialImage \<Rightarrow> bool" where
  "mask_covers F =
     (case Mask F of
        None \<Rightarrow> True
      | Some mask_image \<Rightarrow>
          list_all (\<lambda>i. pixels mask_image i \<noteq> None)
            (region_indices (LargestPossibleRegion (Output F))))"

subsection \<open>A volume of 2 x 2 x 1 voxels with every second voxel masked out\<close>

text \<open>
  A polynomial class to run the program with: a polynomial holds its order and its
  coefficients, and the value of a polynomial of order 1 with the coefficients
  \<open>c\<close> at the point \<open>(x, y, z)\<close> is \<open>c\<^sub>0 + c\<^sub>1 x + c\<^sub>2 y + c\<^sub>3 z\<close>.
\<close>

record sample_polynomial =
  m_order :: int
  m_coeffs :: "real list"

definition scenario_value :: "sample_polynomial \<Rightarrow> point \<Rightarrow> real" where
  "scenario_value p = (\<lambda>(x, y, z). m_coeffs p ! 0 + m_coeffs p ! 1 * x + m_coeffs p ! 2 * y + m_coeffs p ! 3 * z)"

definition scenario_region :: ImageRegion where
  "scenario_region = \<lparr>Index = (0, 0, 0), Size = (2, 2, 1)\<rparr>"

definition scenario_filter :: "sample_polynomial PolynomialImage" where
  "scenario_filter =
     \<lparr>m_reference = \<lparr>LargestPossibleRegion = scenario_region,
                     IndexToPhysicalPoint = (\<lambda>(x, y, z). (real_of_int x, real_of_int y, real_of_int z)),
                     pixels = (\<lambda>i. Some 1)\<rparr>,
      m_poly = \<lparr>m_order = 1, m_coeffs = [1, 2, 3, 4]\<rparr>,
      Mask = Some \<lparr>LargestPossibleRegion = scenario_region,
                   IndexToPhysicalPoint = (\<lambda>(x, y, z). (real_of_int x, real_of_int y, real_of_int z)),
                   pixels = [(0, 0, 0) \<mapsto> 1, (1, 0, 0) \<mapsto> 0, (0, 1, 0) \<mapsto> 1, (1, 1, 0) \<mapsto> 0]\<rparr>,
      Output = \<lparr>LargestPossibleRegion = scenario_region,
                IndexToPhysicalPoint = (\<lambda>(x, y, z). (real_of_int x, real_of_int y, real_of_int z)),
                pixels = Map.empty\<rparr>\<rparr>"

section \<open>Reading an array from a string (QI/Util.h)\<close>









subsection \<open>Reading an int\<close>




subsection \<open>Vocabulary for the properties\<close>







section \<open>The program qipolygen\<close>












subsection \<open>A run of the program\<close>




section \<open>Properties of the Ramani model\<close>

text \<open>
  Claim C4. Whatever the model is constructed with, its lower bounds, start values and
  upper bounds each have \<open>NV = 5\<close> entries, and at every index below 5 the lower bound
  is at most the start value, which is at most the upper bound.
\<close>

theorem RamaniModel_bounds_invariant:
  "length (bounds_lo (RamaniModel_init seq r ls ip)) = NV \<and>
   length (start (RamaniModel_init seq r ls ip)) = NV \<and>
   length (bounds_hi (RamaniModel_init seq r ls ip)) = NV \<and>
   NV = 5 \<and>
   (\<forall>i<5. bounds_lo (RamaniModel_init seq r ls ip) ! i \<le> start (RamaniModel_init seq r ls ip) ! i \<and>
           start (RamaniModel_init seq r ls ip) ! i \<le> bounds_hi (RamaniModel_init seq r ls ip) ! i)"
proof -
  have idx: "i < 5 \<Longrightarrow> i = 0 \<or> i = 1 \<or> i = 2 \<or> i = 3 \<or> i = 4" for i :: nat
    by arith
  show ?thesis
    by (auto simp: RamaniModel_init_def NV_def dest!: idx)
qed

theorem RamaniModel_bounds_invariant_witness:
  "(2::nat) < 5 \<and>
   bounds_lo example_model ! 2 = (1 / 10) / 10 ^ 6 \<and>
   start example_model ! 2 = 10 / 10 ^ 6 \<and>
   bounds_hi example_model ! 2 = 100 / 10 ^ 6 \<and>
   bounds_lo example_model ! 2 \<le> start example_model ! 2 \<and>
   start example_model ! 2 \<le> bounds_hi example_model ! 2"
  using RamaniModel_bounds_invariant [of example_sequence "5 / 2" Gaussian None]
  by (simp add: example_model_def RamaniModel_init_def)

text \<open>
  Claim C8. For every argument, \<open>input_size\<close> returns the size of the sequence
  descriptor the model holds; the argument plays no part.
\<close>

theorem input_size_is_sequence_size:
  "input_size size_of m n = int (size_of (sequence m)) \<and>
   input_size size_of m n = input_size size_of m n' \<and>
   input_size size_of (RamaniModel_init seq r ls ip) n = int (size_of seq)"
  by (simp add: input_size_def RamaniModel_init_def)




section \<open>Round trip through a text archive\<close>

lemma save_loop_eq: "save_loop v i ar = ar @ map Value (drop i v)"
proof (induction v i ar rule: save_loop.induct)
  case (1 v i ar)
  show ?case
  proof (cases "i < length v")
    case True
    then have "drop i v = v ! i # drop (Suc i) v"
      by (simp add: Cons_nth_drop_Suc)
    with True 1 show ?thesis
      by (subst save_loop.simps) simp
  next
    case False
    then show ?thesis
      by (subst save_loop.simps) simp
  qed
qed

lemma load_loop_eq:
  "length w = i + length xs \<Longrightarrow>
   load_loop (length w) i w (map Value xs @ rest) = Some (take i w @ xs, rest)"
proof (induction xs arbitrary: i w)
  case Nil
  then show ?case
    by (subst load_loop.simps) simp
next
  case (Cons x xs)
  then have i: "i < length w" by simp
  have len: "length (w[i := x]) = Suc i + length xs"
    using Cons.prems by simp
  have "load_loop (length w) i w (map Value (x # xs) @ rest) =
        load_loop (length (w[i := x])) (Suc i) (w[i := x]) (map Value xs @ rest)"
    using i by (subst load_loop.simps) simp
  also have "\<dots> = Some (take (Suc i) (w[i := x]) @ xs, rest)"
    using Cons.IH [OF len] .
  also have "take (Suc i) (w[i := x]) = take i w @ [x]"
    using i by (simp add: take_Suc_conv_app_nth)
  finally show ?case by simp
qed

text \<open>
  Claim C9. Saving an array to an empty text archive and loading the archive again, into a
  destination of any length and content, gives an array with the same number of rows and
  the same entries, and consumes exactly what was saved; a destination of another length
  is resized on the way.
\<close>

theorem save_load_roundtrip:
  "load (save [] v @ rest) dest = Some (v, rest) \<and>
   (\<exists>w. load (save [] v) dest = Some (w, []) \<and> length w = length v \<and> (\<forall>i<length v. w ! i = v ! i))"
proof -
  have "load_loop (length v) 0 (if length dest \<noteq> length v then resize (length v) dest else dest)
          (map Value v @ r) = Some (v, r)" for r
    using load_loop_eq [of "if length dest \<noteq> length v then resize (length v) dest else dest" 0 v r]
    by (simp add: resize_def)
  then have "load (save [] v @ r) dest = Some (v, r)" for r
    by (simp add: load_def save_def save_loop_eq)
  from this [of rest] this [of "[]"] show ?thesis by simp
qed

theorem save_load_roundtrip_witness:
  "load (save [] [1, 2, 3 :: int]) [7] = Some ([1, 2, 3], []) \<and> (0::nat) < length [1, 2, 3 :: int]"
  using save_load_roundtrip [of "[1, 2, 3 :: int]" "[]" "[7]"] by simp

section \<open>The ellipse signal as concatenated real and imaginary parts\<close>

lemma Re_ellipse:
  "Re (ellipse_magnetization G a b theta0 psi0 p) =
   (cos (theta0 / 2 + psi0) -
      a * (cos (theta0 - p) * cos (theta0 / 2 + psi0) - sin (theta0 - p) * sin (theta0 / 2 + psi0))) *
     G / (1 - b * cos (theta0 - p))"
  unfolding ellipse_magnetization_def
  by (simp only: Re_divide_of_real) (simp add: algebra_simps)

lemma Im_ellipse:
  "Im (ellipse_magnetization G a b theta0 psi0 p) =
   (sin (theta0 / 2 + psi0) -
      a * (cos (theta0 - p) * sin (theta0 / 2 + psi0) + sin (theta0 - p) * cos (theta0 / 2 + psi0))) *
     G / (1 - b * cos (theta0 - p))"
  unfolding ellipse_magnetization_def
  by (simp only: Im_divide_of_real) (simp add: algebra_simps)

lemma EllipseToSignal_eq:
  "EllipseToSignal G a b theta0 psi0 phi =
     map (\<lambda>p. Re (ellipse_magnetization G a b theta0 psi0 p)) phi @
     map (\<lambda>p. Im (ellipse_magnetization G a b theta0 psi0 p)) phi"
  by (simp add: EllipseToSignal_def Let_def Re_ellipse Im_ellipse zip_map_map zip_same_conv_map o_def)

text \<open>
  Claim C3. For all parameters and every array \<open>phi\<close> of \<open>n\<close> phase increments, the
  result has \<open>2 n\<close> entries: the first \<open>n\<close> are the real parts, the last \<open>n\<close> the
  imaginary parts, of the ellipse magnetization at the entries of \<open>phi\<close>, in order.
\<close>

theorem EllipseToSignal_concatenates:
  "length (EllipseToSignal G a b theta0 psi0 phi) = 2 * length phi \<and>
   take (length phi) (EllipseToSignal G a b theta0 psi0 phi) =
     map (\<lambda>p. Re (ellipse_magnetization G a b theta0 psi0 p)) phi \<and>
   drop (length phi) (EllipseToSignal G a b theta0 psi0 phi) =
     map (\<lambda>p. Im (ellipse_magnetization G a b theta0 psi0 p)) phi \<and>
   (\<forall>i<length phi.
      EllipseToSignal G a b theta0 psi0 phi ! i = Re (ellipse_magnetization G a b theta0 psi0 (phi ! i)) \<and>
      EllipseToSignal G a b theta0 psi0 phi ! (length phi + i) =
        Im (ellipse_magnetization G a b theta0 psi0 (phi ! i)))"
  by (simp add: EllipseToSignal_eq nth_append)

theorem EllipseToSignal_concatenates_witness:
  "(0::nat) < length [0, pi :: real] \<and>
   EllipseToSignal 1 (1 / 2) 0 0 0 [0, pi] = [1 / 2, 3 / 2, 0, 0]"
proof -
  have "EllipseToSignal 1 (1 / 2) 0 0 0 [0, pi] ! 0 = Re (ellipse_magnetization 1 (1 / 2) 0 0 0 0)"
    using EllipseToSignal_concatenates [of 1 "1 / 2" 0 0 0 "[0, pi]"] by simp
  then show ?thesis
    by (simp add: EllipseToSignal_def)
qed

section \<open>The polynomial image: mask gating and coverage\<close>

lemma distinct_concat_map:
  "distinct xs \<Longrightarrow> (\<And>x. x \<in> set xs \<Longrightarrow> distinct (f x)) \<Longrightarrow>
   (\<And>x y. x \<in> set xs \<Longrightarrow> y \<in> set xs \<Longrightarrow> x \<noteq> y \<Longrightarrow> set (f x) \<inter> set (f y) = {}) \<Longrightarrow>
   distinct (concat (map f xs))"
proof (induction xs)
  case Nil
  then show ?case by simp
next
  case (Cons a xs)
  have "distinct (concat (map f xs))"
    using Cons by simp
  moreover have "distinct (f a)"
    using Cons.prems(2) by simp
  moreover have "set (f a) \<inter> set (f y) = {}" if "y \<in> set xs" for y
    using Cons.prems(3) [of a y] Cons.prems(1) that by auto
  ultimately show ?case by auto
qed

lemma distinct_region_indices: "distinct (region_indices r)"
proof -
  obtain x0 y0 z0 nx ny nz where r: "Index r = (x0, y0, z0)" "Size r = (nx, ny, nz)"
    by (metis prod_cases3)
  have row: "distinct (map (\<lambda>i. (x0 + int i, y0 + int j, z0 + int k)) [0..<nx])" for j k
    by (simp add: distinct_map inj_on_def)
  have plane: "distinct (concat (map (\<lambda>j. map (\<lambda>i. (x0 + int i, y0 + int j, z0 + int k)) [0..<nx]) [0..<ny]))" for k
    by (rule distinct_concat_map) (auto simp: row)
  have "distinct (concat (map (\<lambda>k. concat (map (\<lambda>j. map (\<lambda>i. (x0 + int i, y0 + int j, z0 + int k)) [0..<nx]) [0..<ny])) [0..<nz]))"
    by (rule distinct_concat_map) (auto simp: plane)
  then show ?thesis
    by (simp add: region_indices_def r)
qed


lemma count_list_distinct:
  "distinct xs \<Longrightarrow> count_list xs x = (if x \<in> set xs then 1 else 0)"
  by (induction xs) auto

lemma loop_no_mask:
  "GenerateData_loop pv F imageIt None st =
     Some \<lparr>out_pixels = (\<lambda>i. if i \<in> set imageIt
                               then Some (pv (m_poly F) (IndexToPhysicalPoint (m_reference F) i))
                               else out_pixels st i),
           sets = sets st @ imageIt,
           evals = evals st @ imageIt\<rparr>"
proof (induction imageIt arbitrary: st)
  case Nil
  show ?case by simp
next
  case (Cons i imageIt)
  show ?case
    by (simp add: Cons.IH visit_inside_def poly_value_def Set_pixel_def fun_eq_iff)
qed

lemma loop_mask_fails:
  "i \<in> set imageIt \<Longrightarrow> pixels M i = None \<Longrightarrow>
   GenerateData_loop pv F imageIt (Some (M, imageIt)) st = None"
proof (induction imageIt arbitrary: st)
  case Nil
  then show ?case by simp
next
  case (Cons j imageIt)
  show ?case
  proof (cases "pixels M j")
    case None
    then show ?thesis by simp
  next
    case (Some m)
    with Cons.prems have "i \<in> set imageIt" by auto
    from Cons.IH [OF this Cons.prems(2)] Some show ?thesis by simp
  qed
qed

lemma loop_mask:
  "set imageIt \<subseteq> dom (pixels M) \<Longrightarrow>
   GenerateData_loop pv F imageIt (Some (M, imageIt)) st =
     Some \<lparr>out_pixels = (\<lambda>i. if i \<in> set imageIt
                               then Some (if pixels M i = Some 0 then 0
                                          else pv (m_poly F) (IndexToPhysicalPoint (m_reference F) i))
                               else out_pixels st i),
           sets = sets st @ imageIt,
           evals = evals st @ filter (\<lambda>i. pixels M i \<noteq> Some 0) imageIt\<rparr>"
proof (induction imageIt arbitrary: st)
  case Nil
  show ?case by simp
next
  case (Cons i imageIt)
  then obtain m where m: "pixels M i = Some m" and sub: "set imageIt \<subseteq> dom (pixels M)"
    by auto
  show ?case
    by (simp add: m Cons.IH [OF sub] visit_inside_def poly_value_def Set_pixel_def fun_eq_iff)
qed

lemma GenerateData_eq:
  "GenerateData pv F =
     (if mask_covers F then
        Some \<lparr>out_pixels = (\<lambda>i. if i \<in> set (region_indices (LargestPossibleRegion (Output F)))
                                  then Some (voxel_value pv F i) else pixels (Output F) i),
              sets = region_indices (LargestPossibleRegion (Output F)),
              evals = filter (\<lambda>i. \<not> masked_out F i) (region_indices (LargestPossibleRegion (Output F)))\<rparr>
      else None)"
proof (cases "Mask F")
  case None
  then show ?thesis
    by (simp add: GenerateData_def Let_def mask_covers_def loop_no_mask voxel_value_def masked_out_def fun_eq_iff)
next
  case (Some M)
  show ?thesis
  proof (cases "mask_covers F")
    case True
    with Some have "set (region_indices (LargestPossibleRegion (Output F))) \<subseteq> dom (pixels M)"
      by (auto simp: mask_covers_def list_all_iff)
    from loop_mask [OF this, of pv F] Some True show ?thesis
      by (simp add: GenerateData_def Let_def voxel_value_def masked_out_def fun_eq_iff)
  next
    case False
    with Some obtain i where "i \<in> set (region_indices (LargestPossibleRegion (Output F)))"
      and "pixels M i = None"
      by (auto simp: mask_covers_def list_all_iff)
    from loop_mask_fails [OF this, of pv F] Some False show ?thesis
      by (simp add: GenerateData_def Let_def)
  qed
qed


lemma GenerateData_Some:
  assumes "GenerateData pv F = Some st"
  shows "mask_covers F"
    and "out_pixels st = (\<lambda>i. if i \<in> set (region_indices (LargestPossibleRegion (Output F)))
                              then Some (voxel_value pv F i) else pixels (Output F) i)"
    and "sets st = region_indices (LargestPossibleRegion (Output F))"
    and "evals st = filter (\<lambda>i. \<not> masked_out F i) (region_indices (LargestPossibleRegion (Output F)))"
  using assms by (auto simp: GenerateData_eq split: if_splits)

lemma mask_covers_pixel:
  "mask_covers F \<Longrightarrow> Mask F = Some M \<Longrightarrow>
   i \<in> set (region_indices (LargestPossibleRegion (Output F))) \<Longrightarrow> \<exists>m. pixels M i = Some m"
  by (auto simp: mask_covers_def list_all_iff)

lemma scenario_indices:
  "region_indices scenario_region = [(0, 0, 0), (1, 0, 0), (0, 1, 0), (1, 1, 0)]"
  by code_simp

lemma scenario_covers: "mask_covers scenario_filter"
  by (simp add: mask_covers_def scenario_filter_def scenario_indices)

text \<open>
  Claim C1. After a run of \<open>GenerateData\<close> that completes, every voxel of the output
  region whose mask value is zero holds exactly 0 and the polynomial was not evaluated
  for it, while every voxel with no mask, or with a mask value other than zero, holds the
  value of the polynomial at the physical point of the voxel (and the polynomial was
  evaluated for it). Every voxel of the region is in one of the two cases.
\<close>

theorem GenerateData_mask_gating:
  assumes "GenerateData pv F = Some st"
    and "i \<in> set (region_indices (LargestPossibleRegion (Output F)))"
  shows "(\<forall>M. Mask F = Some M \<and> pixels M i = Some 0 \<longrightarrow>
            out_pixels st i = Some 0 \<and> i \<notin> set (evals st)) \<and>
         (Mask F = None \<or> (\<exists>M m. Mask F = Some M \<and> pixels M i = Some m \<and> m \<noteq> 0) \<longrightarrow>
            out_pixels st i = Some (pv (m_poly F) (IndexToPhysicalPoint (m_reference F) i)) \<and>
            i \<in> set (evals st)) \<and>
         (Mask F = None \<or> (\<exists>M m. Mask F = Some M \<and> pixels M i = Some m))"
proof -
  note st = GenerateData_Some [OF assms(1)]
  have masked: "out_pixels st i = Some 0 \<and> i \<notin> set (evals st)"
    if "Mask F = Some M" "pixels M i = Some 0" for M
    using that assms(2) by (simp add: st(2,4) voxel_value_def masked_out_def)
  have inside: "out_pixels st i = Some (pv (m_poly F) (IndexToPhysicalPoint (m_reference F) i)) \<and>
                i \<in> set (evals st)"
    if "Mask F = None \<or> (\<exists>M m. Mask F = Some M \<and> pixels M i = Some m \<and> m \<noteq> 0)"
    using that assms(2) by (auto simp: st(2,4) voxel_value_def masked_out_def)
  have cases: "Mask F = None \<or> (\<exists>M m. Mask F = Some M \<and> pixels M i = Some m)"
    using mask_covers_pixel [OF st(1) _ assms(2)] by (cases "Mask F") auto
  from masked inside cases show ?thesis by blast
qed

theorem GenerateData_mask_gating_witness:
  "\<exists>st. GenerateData scenario_value scenario_filter = Some st \<and>
        (1, 0, 0) \<in> set (region_indices (LargestPossibleRegion (Output scenario_filter))) \<and>
        out_pixels st (1, 0, 0) = Some 0 \<and> (1, 0, 0) \<notin> set (evals st) \<and>
        out_pixels st (0, 1, 0) = Some 4 \<and> (0, 1, 0) \<in> set (evals st)"
proof -
  obtain st where st: "GenerateData scenario_value scenario_filter = Some st"
    using scenario_covers by (auto simp: GenerateData_eq)
  have a: "(1, 0, 0) \<in> set (region_indices (LargestPossibleRegion (Output scenario_filter)))"
    and b: "(0, 1, 0) \<in> set (region_indices (LargestPossibleRegion (Output scenario_filter)))"
    by (simp_all add: scenario_filter_def scenario_indices)
  have "out_pixels st (1, 0, 0) = Some 0 \<and> (1, 0, 0) \<notin> set (evals st)"
    using GenerateData_mask_gating [OF st a] by (simp add: scenario_filter_def)
  moreover have "out_pixels st (0, 1, 0) = Some 4 \<and> (0, 1, 0) \<in> set (evals st)"
    using GenerateData_mask_gating [OF st b] by (simp add: scenario_filter_def scenario_value_def)
  ultimately show ?thesis using st a by blast
qed


text \<open>
  Claim C2. Whatever the region and the mask, a run of \<open>GenerateData\<close> that completes
  has called \<^verbatim>\<open>Set\<close> exactly once for every index of the output region, in raster
  order, and for no other index: every voxel of the region has been assigned, and the
  buffer is as it was elsewhere. A run completes when there is no mask, or the mask
  holds a pixel for every voxel of the region.
\<close>

theorem GenerateData_writes_each_voxel_once:
  "(mask_covers F \<longrightarrow> (\<exists>st. GenerateData pv F = Some st)) \<and>
   (\<forall>st. GenerateData pv F = Some st \<longrightarrow>
      sets st = region_indices (LargestPossibleRegion (Output F)) \<and>
      distinct (sets st) \<and>
      (\<forall>i. count_list (sets st) i =
             (if i \<in> set (region_indices (LargestPossibleRegion (Output F))) then 1 else 0)) \<and>
      (\<forall>i \<in> set (region_indices (LargestPossibleRegion (Output F))). \<exists>val. out_pixels st i = Some val) \<and>
      (\<forall>i. i \<notin> set (region_indices (LargestPossibleRegion (Output F))) \<longrightarrow>
             out_pixels st i = pixels (Output F) i))"
proof -
  have "sets st = region_indices (LargestPossibleRegion (Output F)) \<and>
      distinct (sets st) \<and>
      (\<forall>i. count_list (sets st) i =
             (if i \<in> set (region_indices (LargestPossibleRegion (Output F))) then 1 else 0)) \<and>
      (\<forall>i \<in> set (region_indices (LargestPossibleRegion (Output F))). \<exists>val. out_pixels st i = Some val) \<and>
      (\<forall>i. i \<notin> set (region_indices (LargestPossibleRegion (Output F))) \<longrightarrow>
             out_pixels st i = pixels (Output F) i)"
    if "GenerateData pv F = Some st" for st
  proof -
    note st = GenerateData_Some [OF that]
    have d: "distinct (sets st)"
      by (simp add: st(3) distinct_region_indices)
    show ?thesis
      using d by (simp add: count_list_distinct) (simp add: st(2,3))
  qed
  moreover have "mask_covers F \<longrightarrow> (\<exists>st. GenerateData pv F = Some st)"
    by (simp add: GenerateData_eq)
  ultimately show ?thesis by blast
qed

theorem GenerateData_writes_each_voxel_once_witness:
  "mask_covers scenario_filter \<and>
   (\<exists>st. GenerateData scenario_value scenario_filter = Some st \<and>
         sets st = [(0, 0, 0), (1, 0, 0), (0, 1, 0), (1, 1, 0)] \<and>
         count_list (sets st) (1, 0, 0) = 1 \<and>
         (\<exists>val. out_pixels st (1, 1, 0) = Some val))"
proof -
  obtain st where st: "GenerateData scenario_value scenario_filter = Some st"
    using GenerateData_writes_each_voxel_once [of scenario_filter scenario_value] scenario_covers
    by blast
  have "sets st = [(0, 0, 0), (1, 0, 0), (0, 1, 0), (1, 1, 0)] \<and>
        count_list (sets st) (1, 0, 0) = 1 \<and> (\<exists>val. out_pixels st (1, 1, 0) = Some val)"
    using GenerateData_writes_each_voxel_once [of scenario_filter scenario_value] st
    by (simp add: scenario_filter_def scenario_indices)
  with st scenario_covers show ?thesis by blast
qed

section \<open>ReadArray: total, and what it reads\<close>



























section \<open>qipolygen: the check of the number of coefficients\<close>











end
